theory Spec2Isabelle
  imports Main "HOL-Library.Log_Nat" "HOL-Library.Multiset"
begin

section \<open>Data model\<close>

text \<open>
  The rows the dashboard reads, as the generated database types declare them.
  A nullable column is an \<open>option\<close>. Monetary columns are \<open>NUMERIC(10, 2)\<close> and reach
  the client as JavaScript numbers; a number is modelled by the rational it denotes.
  \<open>appointment_date\<close> is a \<open>DATE\<close> column; the model keeps the calendar day as the
  number of days since 1970-01-01, which is what \<open>new Date('YYYY-MM-DD')\<close> measures in
  units of 86400000 ms.
\<close>

datatype appointment_status = Scheduled | Waiting | Completed | Return | Cancelled

record doctor_fees =
  consultation_fee :: "rat option"
  return_consultation_fee :: "rat option"
  free_return_days :: "int option"

record appointment =
  apt_id :: string
  patient_id :: string
  doctor_id :: string
  appointment_date :: int
  status :: appointment_status
  cost :: "rat option"
  is_return_visit :: "bool option"
  doctors :: "doctor_fees option"

datatype js_error = TypeError

section \<open>JavaScript operators used by the revenue loop\<close>

text \<open>Truthiness of a nullable number: \<open>null\<close>, \<open>undefined\<close> and \<open>0\<close> are falsy.\<close>

definition truthy :: "'a::zero option \<Rightarrow> bool" where
  "truthy v = (case v of None \<Rightarrow> False | Some n \<Rightarrow> n \<noteq> 0)"

text \<open>\<open>a || b\<close> on nullable numbers.\<close>

definition js_or :: "rat option \<Rightarrow> rat option \<Rightarrow> rat option" where
  "js_or a b = (if truthy a then a else b)"

text \<open>\<open>a || 0\<close>: the end of both fee cascades.\<close>

definition js_or_zero :: "rat option \<Rightarrow> rat" where
  "js_or_zero a = (case a of None \<Rightarrow> 0 | Some n \<Rightarrow> if n \<noteq> 0 then n else 0)"

text \<open>\<open>obj?.field\<close>: optional chaining on the joined doctor row.\<close>

definition opt_chain :: "'r option \<Rightarrow> ('r \<Rightarrow> 'v option) \<Rightarrow> 'v option" where
  "opt_chain obj field = (case obj of None \<Rightarrow> None | Some r \<Rightarrow> field r)"

text \<open>\<open>n <= m\<close> where \<open>m\<close> may be \<open>null\<close> (which converts to 0).\<close>

definition js_le :: "int \<Rightarrow> int option \<Rightarrow> bool" where
  "js_le n m = (case m of None \<Rightarrow> n \<le> 0 | Some k \<Rightarrow> n \<le> k)"

text \<open>\<open>new Date(d).getTime()\<close> for a calendar day: milliseconds since the epoch.\<close>

definition date_getTime :: "int \<Rightarrow> int" where
  "date_getTime d = d * (1000 * 60 * 60 * 24)"

section \<open>The prior-visit query\<close>

text \<open>
  The filters of the query in \<open>fetchTodayStats\<close>: same patient, same doctor, status
  completed, another id.
\<close>

definition matches_prior :: "appointment \<Rightarrow> appointment \<Rightarrow> bool" where
  "matches_prior apt v \<longleftrightarrow>
     patient_id v = patient_id apt \<and> doctor_id v = doctor_id apt \<and>
     status v = Completed \<and> apt_id v \<noteq> apt_id apt"

text \<open>
  \<open>order('appointment_date', {ascending: false}).limit(1).maybeSingle()\<close>: the
  date of the first row in descending date order, or \<open>null\<close>. Only the date of the row
  is read afterwards.
\<close>

definition lastVisit :: "appointment list \<Rightarrow> appointment \<Rightarrow> int option" where
  "lastVisit db apt =
     (case rev (sort (map appointment_date (filter (matches_prior apt) db))) of
        [] \<Rightarrow> None
      | d # _ \<Rightarrow> Some d)"

section \<open>Revenue contribution of one completed appointment\<close>

text \<open>\<open>apt.cost || apt.doctors?.return_consultation_fee || apt.doctors?.consultation_fee || 0\<close>\<close>

definition paid_return :: "appointment \<Rightarrow> rat" where
  "paid_return apt =
     js_or_zero (js_or (js_or (cost apt) (opt_chain (doctors apt) return_consultation_fee))
                       (opt_chain (doctors apt) consultation_fee))"

text \<open>\<open>apt.cost || apt.doctors?.consultation_fee || 0\<close>\<close>

definition paid_regular :: "appointment \<Rightarrow> rat" where
  "paid_regular apt = js_or_zero (js_or (cost apt) (opt_chain (doctors apt) consultation_fee))"

text \<open>
  The amount one iteration of the loop adds to \<open>totalRevenue\<close>. The only property read
  without \<open>?.\<close> is \<open>apt.doctors.free_return_days\<close>, which throws when \<open>apt.doctors\<close>
  is \<open>null\<close>.
\<close>

definition contribution :: "appointment list \<Rightarrow> appointment \<Rightarrow> js_error + rat" where
  "contribution db apt =
     (if is_return_visit apt = Some True then
        (case (lastVisit db apt, truthy (opt_chain (doctors apt) free_return_days)) of
           (Some lastVisitDate, True) \<Rightarrow>
             (let daysDiff = (date_getTime (appointment_date apt) - date_getTime lastVisitDate)
                               div (1000 * 60 * 60 * 24)
              in case doctors apt of
                   None \<Rightarrow> Inl TypeError
                 | Some d \<Rightarrow>
                     if js_le daysDiff (free_return_days d) then Inr 0
                     else Inr (paid_return apt))
         | _ \<Rightarrow> Inr (paid_return apt))
      else Inr (paid_regular apt))"

section \<open>The cascades as lists\<close>

text \<open>
  The specification writes the paid cascade with nullish coalescing,
  \<open>cost ?? return_consultation_fee ?? consultation_fee ?? 0\<close>: the first value that is
  present, whatever it is, else 0.
\<close>

fun first_present :: "rat option list \<Rightarrow> rat" where
  "first_present [] = 0"
| "first_present (None # xs) = first_present xs"
| "first_present (Some v # xs) = v"

text \<open>The same cascade where a zero is passed over like an absent value.\<close>

fun first_nonzero :: "rat option list \<Rightarrow> rat" where
  "first_nonzero [] = 0"
| "first_nonzero (None # xs) = first_nonzero xs"
| "first_nonzero (Some v # xs) = (if v \<noteq> 0 then v else first_nonzero xs)"

text \<open>The operands of the two cascades of the loop, in source order.\<close>

definition fees_return :: "appointment \<Rightarrow> rat option list" where
  "fees_return apt = [cost apt, opt_chain (doctors apt) return_consultation_fee,
                      opt_chain (doctors apt) consultation_fee]"

definition fees_regular :: "appointment \<Rightarrow> rat option list" where
  "fees_regular apt = [cost apt, opt_chain (doctors apt) consultation_fee]"

section \<open>Conditions of the billing rules\<close>

text \<open>
  The wording of the specification's invariant: a strictly earlier completed visit of
  another appointment for the same patient and doctor, at most \<open>free_return_days\<close> days
  before the appointment.
\<close>

definition earlier_completed_within :: "appointment list \<Rightarrow> appointment \<Rightarrow> bool" where
  "earlier_completed_within db apt =
     (case opt_chain (doctors apt) free_return_days of
        None \<Rightarrow> False
      | Some n \<Rightarrow>
          list_ex (\<lambda>v. matches_prior apt v \<and> appointment_date v < appointment_date apt \<and>
                       appointment_date apt - appointment_date v \<le> n) db)"

text \<open>
  The two guards of the loop that lead to the free branch, read together: the query
  returned a row, \<open>free_return_days\<close> is truthy, and the day difference to the row's
  date is at most \<open>free_return_days\<close>.
\<close>

definition free_return :: "appointment list \<Rightarrow> appointment \<Rightarrow> bool" where
  "free_return db apt =
     (case (lastVisit db apt, opt_chain (doctors apt) free_return_days) of
        (Some l, Some n) \<Rightarrow> n \<noteq> 0 \<and> appointment_date apt - l \<le> n
      | _ \<Rightarrow> False)"

section \<open>The running total\<close>

text \<open>
  \<open>totalRevenue\<close> is a JavaScript number, an IEEE 754 double, and \<open>+=\<close> rounds each
  sum to the nearest double, ties to even. A finite double is modelled by the rational
  it denotes (the sign of zero is not kept).
\<close>

datatype js_number = Finite rat | PosInfinity | NegInfinity | NaN

definition pow2 :: "int \<Rightarrow> rat" where
  "pow2 e = (if 0 \<le> e then 2 ^ nat e else 1 / 2 ^ nat (- e))"

text \<open>The binary exponent of a non-zero rational: \<open>2 ^ e \<le> \<bar>x\<bar> < 2 ^ (e + 1)\<close>.\<close>

definition js_exponent :: "rat \<Rightarrow> int" where
  "js_exponent x =
     (if 1 \<le> \<bar>x\<bar> then bitlen \<lfloor>\<bar>x\<bar>\<rfloor> - 1 else - bitlen (\<lceil>1 / \<bar>x\<bar>\<rceil> - 1))"

definition round_half_even :: "rat \<Rightarrow> int" where
  "round_half_even q =
     (let f = \<lfloor>q\<rfloor>; d = q - of_int f
      in if d < 1 / 2 then f else if 1 / 2 < d then f + 1
         else if even f then f else f + 1)"

text \<open>
  Rounding to 53 significant bits; below the normal range the spacing stays
  \<open>2 ^ - 1074\<close>.
\<close>

definition round_double :: "rat \<Rightarrow> rat" where
  "round_double x =
     (if x = 0 then 0
      else let e = max (js_exponent x - 52) (- 1074)
           in of_int (round_half_even (x / pow2 e)) * pow2 e)"

text \<open>A rounded result of magnitude \<open>2 ^ 1024\<close> or more is an infinity.\<close>

definition to_double :: "rat \<Rightarrow> js_number" where
  "to_double x =
     (let v = round_double x
      in if pow2 1024 \<le> v then PosInfinity
         else if v \<le> - pow2 1024 then NegInfinity
         else Finite v)"

text \<open>\<open>totalRevenue + c\<close> for a finite amount \<open>c\<close>.\<close>

fun js_add :: "js_number \<Rightarrow> rat \<Rightarrow> js_number" where
  "js_add (Finite a) c = to_double (a + c)"
| "js_add PosInfinity c = PosInfinity"
| "js_add NegInfinity c = NegInfinity"
| "js_add NaN c = NaN"

text \<open>The \<open>for (const apt of completedAppointments)\<close> loop; an exception leaves it.\<close>

fun revenue_loop ::
  "appointment list \<Rightarrow> appointment list \<Rightarrow> js_number \<Rightarrow> js_error + js_number" where
  "revenue_loop db [] acc = Inr acc"
| "revenue_loop db (apt # rest) acc =
     (case contribution db apt of
        Inl e \<Rightarrow> Inl e
      | Inr c \<Rightarrow> revenue_loop db rest (js_add acc c))"

definition totalRevenue :: "appointment list \<Rightarrow> appointment list \<Rightarrow> js_error + js_number" where
  "totalRevenue db completedAppointments = revenue_loop db completedAppointments (Finite 0)"

text \<open>The revenue figure of \<open>fetchTodayStats\<close>: today's appointments, the completed ones.\<close>

definition fetchTodayStats_revenue :: "appointment list \<Rightarrow> int \<Rightarrow> js_error + js_number" where
  "fetchTodayStats_revenue db today =
     (let appointments = filter (\<lambda>apt. appointment_date apt = today) db;
          completedAppointments = filter (\<lambda>apt. status apt = Completed) appointments
      in totalRevenue db completedAppointments)"

text \<open>The amount an appointment adds, as a number.\<close>

definition amount :: "appointment list \<Rightarrow> appointment \<Rightarrow> rat" where
  "amount db apt = (case contribution db apt of Inl e \<Rightarrow> 0 | Inr c \<Rightarrow> c)"

text \<open>An amount in whole currency units.\<close>

definition whole :: "rat \<Rightarrow> bool" where
  "whole r \<longleftrightarrow> of_int \<lfloor>r\<rfloor> = r"

section \<open>Search input sanitising\<close>

datatype js_value = JsString string | JsNumber rat | JsBoolean bool | JsNull | JsUndefined

definition backslash :: char where
  "backslash = CHR 0x5C"

text \<open>\<open>s.replace(/c/g, rep)\<close> for a single character \<open>c\<close>.\<close>

definition replace_all :: "char \<Rightarrow> string \<Rightarrow> string \<Rightarrow> string" where
  "replace_all c rep s = concat (map (\<lambda>x. if x = c then rep else [x]) s)"

definition sanitizeSearchInput :: "js_value \<Rightarrow> string" where
  "sanitizeSearchInput input =
     (case input of
        JsString s \<Rightarrow>
          if s = [] then []
          else replace_all (CHR ''_'') [backslash, CHR ''_'']
                 (replace_all (CHR ''%'') [backslash, CHR ''%'']
                    (replace_all backslash [backslash, backslash] s))
      | _ \<Rightarrow> [])"

text \<open>What the claim says of one character: the three special ones get a backslash.\<close>

definition escape_char :: "char \<Rightarrow> string" where
  "escape_char c =
     (if c = backslash \<or> c = CHR ''%'' \<or> c = CHR ''_'' then [backslash, c] else [c])"

section \<open>Example rows\<close>

definition fees :: "rat option \<Rightarrow> rat option \<Rightarrow> int option \<Rightarrow> doctor_fees option" where
  "fees cf rcf frd =
     Some \<lparr>consultation_fee = cf, return_consultation_fee = rcf, free_return_days = frd\<rparr>"

definition visit ::
  "string \<Rightarrow> int \<Rightarrow> rat option \<Rightarrow> bool \<Rightarrow> doctor_fees option \<Rightarrow> appointment" where
  "visit i day c r d =
     \<lparr>apt_id = i, patient_id = ''p1'', doctor_id = ''d1'', appointment_date = day,
      status = Completed, cost = c, is_return_visit = Some r, doctors = d\<rparr>"

definition patient_visit ::
  "string \<Rightarrow> string \<Rightarrow> int \<Rightarrow> rat option \<Rightarrow> bool \<Rightarrow> doctor_fees option \<Rightarrow> appointment" where
  "patient_visit p i day c r d = (visit i day c r d)\<lparr>patient_id := p\<rparr>"

text \<open>
  The specification's example of a day: a new visit costing 100, a return visit within
  the grace window, and a return visit outside it with cost 40; with the earlier visits
  of the two returning patients.
\<close>

definition example_db :: "appointment list" where
  "example_db =
     [patient_visit ''pA'' ''a1'' 15 None False (fees (Some 50) (Some 30) (Some 7)),
      patient_visit ''pB'' ''b1'' 5 None False (fees (Some 50) (Some 30) (Some 7)),
      patient_visit ''pA'' ''a2'' 20 None True (fees (Some 50) (Some 30) (Some 7)),
      patient_visit ''pB'' ''b2'' 20 (Some 40) True (fees (Some 50) (Some 30) (Some 7)),
      patient_visit ''pC'' ''c1'' 20 (Some 100) False (fees (Some 50) (Some 30) (Some 7))]"

text \<open>
  Three regular visits of one day with recorded costs 0.10, 0.20 and 0.30, each given
  as the double that the decimal denotes.
\<close>

definition tenths :: "appointment list" where
  "tenths =
     [visit ''t1'' 20 (Some (3602879701896397 / 36028797018963968)) False
        (fees (Some 50) (Some 30) (Some 7)),
      visit ''t2'' 20 (Some (3602879701896397 / 18014398509481984)) False
         (fees (Some 50) (Some 30) (Some 7)),
      visit ''t3'' 20 (Some (5404319552844595 / 18014398509481984)) False
         (fees (Some 50) (Some 30) (Some 7))]"

section \<open>Basic facts\<close>

lemma daysDiff_days:
  "(date_getTime a - date_getTime b) div 86400000 = a - b"
proof -
  have "date_getTime a - date_getTime b = (a - b) * 86400000"
    by (simp add: date_getTime_def algebra_simps)
  then show ?thesis by simp
qed

lemma paid_return_first_nonzero: "paid_return apt = first_nonzero (fees_return apt)"
  by (simp add: paid_return_def fees_return_def js_or_zero_def js_or_def truthy_def
           split: option.splits)

lemma paid_regular_first_nonzero: "paid_regular apt = first_nonzero (fees_regular apt)"
  by (simp add: paid_regular_def fees_regular_def js_or_zero_def js_or_def truthy_def
           split: option.splits)

lemma contribution_regular:
  "is_return_visit apt \<noteq> Some True \<Longrightarrow> contribution db apt = Inr (paid_regular apt)"
  by (simp add: contribution_def)

lemma contribution_return:
  "is_return_visit apt = Some True \<Longrightarrow>
   contribution db apt =
     (case lastVisit db apt of
        None \<Rightarrow> Inr (paid_return apt)
      | Some l \<Rightarrow>
          (case opt_chain (doctors apt) free_return_days of
             None \<Rightarrow> Inr (paid_return apt)
           | Some n \<Rightarrow>
               if n \<noteq> 0 \<and> appointment_date apt - l \<le> n then Inr 0
               else Inr (paid_return apt)))"
  by (auto simp: contribution_def daysDiff_days truthy_def opt_chain_def js_le_def Let_def
           split: option.splits bool.splits)

lemma hd_rev_sort:
  "(case rev (sort xs) of [] \<Rightarrow> None | d # _ \<Rightarrow> Some d) =
     (if xs = [] then None else Some (Max (set (xs::int list))))"
proof (cases "xs = []")
  case True then show ?thesis by simp
next
  case False
  then have ne: "sort xs \<noteq> []" by (metis length_0_conv length_sort)
  then obtain d ys where r: "rev (sort xs) = d # ys" by (cases "rev (sort xs)") auto
  then have s: "sort xs = rev ys @ [d]" by (metis rev.simps(2) rev_rev_ident)
  have "sorted (rev ys @ [d])" using s sorted_sort[of xs] by simp
  then have "\<forall>y\<in>set (rev ys). y \<le> d" by (simp add: sorted_append)
  moreover have "set xs = set (rev ys @ [d])" using s by (metis set_sort)
  ultimately have "Max (set xs) = d"
    by (auto intro!: Max_eqI)
  then show ?thesis using False r by simp
qed

lemma lastVisit_eq:
  "lastVisit db apt =
     (if filter (matches_prior apt) db = [] then None
      else Some (Max (appointment_date ` {v \<in> set db. matches_prior apt v})))"
  unfolding lastVisit_def hd_rev_sort by (auto simp: image_def)

lemma lastVisit_None_iff:
  "lastVisit db apt = None \<longleftrightarrow> (\<forall>v\<in>set db. \<not> matches_prior apt v)"
  by (auto simp: lastVisit_eq filter_empty_conv)

lemma lastVisit_Some_iff:
  "lastVisit db apt = Some d \<longleftrightarrow>
     (\<exists>v\<in>set db. matches_prior apt v \<and> appointment_date v = d) \<and>
     (\<forall>v\<in>set db. matches_prior apt v \<longrightarrow> appointment_date v \<le> d)"
proof -
  let ?S = "appointment_date ` {v \<in> set db. matches_prior apt v}"
  have fin: "finite ?S" by simp
  show ?thesis
  proof (cases "filter (matches_prior apt) db = []")
    case True
    then show ?thesis by (auto simp: lastVisit_eq filter_empty_conv)
  next
    case False
    then have ne: "?S \<noteq> {}" by (auto simp: filter_empty_conv)
    have "Max ?S = d \<longleftrightarrow> d \<in> ?S \<and> (\<forall>x\<in>?S. x \<le> d)"
      using Max_eq_iff[OF fin ne, of d] by blast
    then show ?thesis using False by (auto simp: lastVisit_eq)
  qed
qed

lemma contribution_free_return:
  assumes "is_return_visit apt = Some True"
  shows "contribution db apt = (if free_return db apt then Inr 0 else Inr (paid_return apt))"
  using assms by (simp add: contribution_return free_return_def split: option.splits)

lemma earlier_imp_free_return:
  assumes "earlier_completed_within db apt"
  shows "free_return db apt"
proof -
  from assms obtain n v where n: "opt_chain (doctors apt) free_return_days = Some n"
    and v: "v \<in> set db" "matches_prior apt v" "appointment_date v < appointment_date apt"
           "appointment_date apt - appointment_date v \<le> n"
    by (auto simp: earlier_completed_within_def list_ex_iff split: option.splits)
  from v(1,2) obtain l where l: "lastVisit db apt = Some l"
    by (cases "lastVisit db apt") (auto simp: lastVisit_None_iff)
  then have "appointment_date v \<le> l" using v(1,2) by (simp add: lastVisit_Some_iff)
  with v(3,4) have "n \<noteq> 0" "appointment_date apt - l \<le> n" by auto
  then show ?thesis by (simp add: free_return_def l n)
qed

lemma first_nonzero_positive:
  "\<exists>v. Some v \<in> set xs \<and> 0 < v \<Longrightarrow> first_nonzero xs \<noteq> 0"
  by (induction xs rule: first_nonzero.induct) auto

lemma first_nonzero_zero_iff:
  "first_nonzero xs = 0 \<longleftrightarrow> (\<forall>v. Some v \<in> set xs \<longrightarrow> v = 0)"
  by (induction xs rule: first_nonzero.induct) auto

lemma first_nonzero_filter_present:
  "first_nonzero (filter (\<lambda>x. x \<noteq> None) xs) = first_nonzero xs"
  by (induction xs rule: first_nonzero.induct) auto

lemma replace_all_append:
  "replace_all c r (xs @ ys) = replace_all c r xs @ replace_all c r ys"
  by (simp add: replace_all_def)

lemma replace_all_concat_map:
  "replace_all c r (concat (map g s)) = concat (map (\<lambda>x. replace_all c r (g x)) s)"
  by (induction s) (simp_all add: replace_all_append, simp add: replace_all_def)

lemma escape_one:
  "replace_all (CHR ''_'') [backslash, CHR ''_'']
     (replace_all (CHR ''%'') [backslash, CHR ''%'']
        (if x = backslash then [backslash, backslash] else [x])) = escape_char x"
  by (simp add: replace_all_def escape_char_def backslash_def)

lemma three_passes:
  "replace_all (CHR ''_'') [backslash, CHR ''_'']
     (replace_all (CHR ''%'') [backslash, CHR ''%'']
        (replace_all backslash [backslash, backslash] s)) = concat (map escape_char s)"
proof -
  have "replace_all backslash [backslash, backslash] s =
        concat (map (\<lambda>x. if x = backslash then [backslash, backslash] else [x]) s)"
    by (simp add: replace_all_def)
  then show ?thesis
    by (simp add: replace_all_concat_map escape_one)
qed

section \<open>Return-visit billing: one appointment\<close>

subsection \<open>Regular visits\<close>

text \<open>
  A regular visit whose recorded cost is 0 is billed the doctor's consultation fee: the
  cascade is written with \<open>||\<close>, which passes over a zero, and the \<open>cost\<close> column
  defaults to 0.
\<close>

theorem C2_counterexample:
  "is_return_visit (visit ''a1'' 20 (Some 0) False (fees (Some 50) None (Some 7))) = Some False \<and>
   cost (visit ''a1'' 20 (Some 0) False (fees (Some 50) None (Some 7))) = Some 0 \<and>
   first_present (fees_regular (visit ''a1'' 20 (Some 0) False (fees (Some 50) None (Some 7)))) = 0 \<and>
   contribution [] (visit ''a1'' 20 (Some 0) False (fees (Some 50) None (Some 7))) = Inr 50"
  by code_simp

text \<open>
  C2 (as amended). For every appointment that is not a return visit, the contribution
  is the recorded cost when it is present and not zero, else the doctor's consultation
  fee when it is present and not zero, else 0; and it is the same whatever the table of
  appointments holds, so it does not depend on prior visits.
\<close>

theorem C2_regular_visit_contribution:
  assumes "is_return_visit apt \<noteq> Some True"
  shows "contribution db apt = Inr (first_nonzero (fees_regular apt)) \<and>
         contribution db apt = contribution db' apt"
  using assms by (simp add: contribution_regular paid_regular_first_nonzero)

theorem C2_witness:
  "is_return_visit (visit ''a1'' 20 None False (fees (Some 50) (Some 30) (Some 7))) \<noteq> Some True \<and>
   contribution [visit ''a0'' 19 (Some 10) False (fees (Some 50) (Some 30) (Some 7))]
     (visit ''a1'' 20 None False (fees (Some 50) (Some 30) (Some 7))) = Inr 50 \<and>
   contribution [] (visit ''a1'' 20 None False (fees (Some 50) (Some 30) (Some 7))) = Inr 50"
proof -
  let ?a = "visit ''a1'' 20 None False (fees (Some 50) (Some 30) (Some 7))"
  have r: "is_return_visit ?a \<noteq> Some True" by (simp add: visit_def)
  have f: "first_nonzero (fees_regular ?a) = 50"
    by (simp add: fees_regular_def visit_def fees_def opt_chain_def)
  from C2_regular_visit_contribution[OF r, of "[visit ''a0'' 19 (Some 10) False (fees (Some 50) (Some 30) (Some 7))]" "[]"] r f
  show ?thesis by metis
qed

subsection \<open>The boundary of the grace window\<close>

text \<open>
  With \<open>free_return_days = 0\<close> a completed visit of the same day is exactly 0 days
  earlier, and the return visit is billed: a zero window is falsy in the guard
  \<open>lastVisit && apt.doctors?.free_return_days\<close>.
\<close>

theorem C3_counterexample:
  "is_return_visit (visit ''a2'' 20 (Some 40) True (fees (Some 50) (Some 30) (Some 0))) = Some True \<and>
   lastVisit [visit ''a1'' 20 (Some 100) False (fees (Some 50) (Some 30) (Some 0))]
     (visit ''a2'' 20 (Some 40) True (fees (Some 50) (Some 30) (Some 0))) = Some (20 - 0) \<and>
   contribution [visit ''a1'' 20 (Some 100) False (fees (Some 50) (Some 30) (Some 0))]
     (visit ''a2'' 20 (Some 40) True (fees (Some 50) (Some 30) (Some 0))) = Inr 40"
  by code_simp

text \<open>
  C3 (as amended). For every return visit whose doctor's \<open>free_return_days\<close> is set
  and not zero, and whose most recent other completed visit for the same patient and
  doctor is exactly \<open>free_return_days\<close> days earlier, the contribution is 0: the
  comparison \<open>daysDiff <= free_return_days\<close> includes the boundary.
\<close>

theorem C3_boundary_is_free:
  assumes "is_return_visit apt = Some True"
    and "opt_chain (doctors apt) free_return_days = Some n"
    and "n \<noteq> 0"
    and "lastVisit db apt = Some l"
    and "appointment_date apt - l = n"
  shows "contribution db apt = Inr 0"
  using assms by (simp add: contribution_return)

theorem C3_witness:
  "is_return_visit (visit ''a2'' 27 None True (fees (Some 50) (Some 30) (Some 7))) = Some True \<and>
   opt_chain (doctors (visit ''a2'' 27 None True (fees (Some 50) (Some 30) (Some 7))))
     free_return_days = Some 7 \<and> (7::int) \<noteq> 0 \<and>
   lastVisit [visit ''a1'' 20 None False (fees (Some 50) (Some 30) (Some 7))]
     (visit ''a2'' 27 None True (fees (Some 50) (Some 30) (Some 7))) = Some 20 \<and>
   appointment_date (visit ''a2'' 27 None True (fees (Some 50) (Some 30) (Some 7))) - 20 = 7 \<and>
   contribution [visit ''a1'' 20 None False (fees (Some 50) (Some 30) (Some 7))]
     (visit ''a2'' 27 None True (fees (Some 50) (Some 30) (Some 7))) = Inr 0"
proof -
  let ?a = "visit ''a2'' 27 None True (fees (Some 50) (Some 30) (Some 7))"
  let ?db = "[visit ''a1'' 20 None False (fees (Some 50) (Some 30) (Some 7))]"
  have h1: "is_return_visit ?a = Some True" by (simp add: visit_def)
  have h2: "opt_chain (doctors ?a) free_return_days = Some 7"
    by (simp add: visit_def fees_def opt_chain_def)
  have h3: "(7::int) \<noteq> 0" by simp
  have h4: "lastVisit ?db ?a = Some 20" by code_simp
  have h5: "appointment_date ?a - 20 = 7" by (simp add: visit_def)
  from C3_boundary_is_free[OF h1 h2 h3 h4 h5] h1 h2 h3 h4 h5 show ?thesis by simp
qed

subsection \<open>One day past the grace window\<close>

text \<open>
  A return visit 8 days after the previous one, window 7, recorded cost 0 and return
  fee 30: the loop adds 30, where \<open>cost ?? return_consultation_fee ?? \<dots>\<close> is 0.
\<close>

theorem C4_counterexample:
  "is_return_visit (visit ''a2'' 28 (Some 0) True (fees (Some 50) (Some 30) (Some 7))) = Some True \<and>
   lastVisit [visit ''a1'' 20 None False (fees (Some 50) (Some 30) (Some 7))]
     (visit ''a2'' 28 (Some 0) True (fees (Some 50) (Some 30) (Some 7))) = Some (28 - (7 + 1)) \<and>
   contribution [visit ''a1'' 20 None False (fees (Some 50) (Some 30) (Some 7))]
     (visit ''a2'' 28 (Some 0) True (fees (Some 50) (Some 30) (Some 7))) = Inr 30 \<and>
   first_present (fees_return (visit ''a2'' 28 (Some 0) True (fees (Some 50) (Some 30) (Some 7)))) = 0"
  by code_simp

text \<open>
  C4 (as amended). For every return visit whose most recent other completed visit is
  \<open>free_return_days + 1\<close> days earlier, the contribution is the first of cost, return
  consultation fee and consultation fee that is present and not zero, else 0; it is not
  zero whenever one of the three is set and positive.
\<close>

theorem C4_outside_window_is_paid:
  assumes "is_return_visit apt = Some True"
    and "opt_chain (doctors apt) free_return_days = Some n"
    and "lastVisit db apt = Some l"
    and "appointment_date apt - l = n + 1"
  shows "contribution db apt = Inr (first_nonzero (fees_return apt)) \<and>
         ((\<exists>v. Some v \<in> set (fees_return apt) \<and> 0 < v) \<longrightarrow> contribution db apt \<noteq> Inr 0)"
proof -
  have "contribution db apt = Inr (first_nonzero (fees_return apt))"
    using assms by (simp add: contribution_return paid_return_first_nonzero)
  then show ?thesis using first_nonzero_positive[of "fees_return apt"] by auto
qed

theorem C4_witness:
  "is_return_visit (visit ''a2'' 28 None True (fees (Some 50) (Some 30) (Some 7))) = Some True \<and>
   opt_chain (doctors (visit ''a2'' 28 None True (fees (Some 50) (Some 30) (Some 7))))
     free_return_days = Some 7 \<and>
   lastVisit [visit ''a1'' 20 None False (fees (Some 50) (Some 30) (Some 7))]
     (visit ''a2'' 28 None True (fees (Some 50) (Some 30) (Some 7))) = Some 20 \<and>
   appointment_date (visit ''a2'' 28 None True (fees (Some 50) (Some 30) (Some 7))) - 20 = 7 + 1 \<and>
   (\<exists>v. Some v \<in> set (fees_return (visit ''a2'' 28 None True (fees (Some 50) (Some 30) (Some 7))))
        \<and> 0 < v) \<and>
   contribution [visit ''a1'' 20 None False (fees (Some 50) (Some 30) (Some 7))]
     (visit ''a2'' 28 None True (fees (Some 50) (Some 30) (Some 7))) = Inr 30"
proof -
  let ?a = "visit ''a2'' 28 None True (fees (Some 50) (Some 30) (Some 7))"
  let ?db = "[visit ''a1'' 20 None False (fees (Some 50) (Some 30) (Some 7))]"
  have h1: "is_return_visit ?a = Some True" by (simp add: visit_def)
  have h2: "opt_chain (doctors ?a) free_return_days = Some 7"
    by (simp add: visit_def fees_def opt_chain_def)
  have h3: "lastVisit ?db ?a = Some 20" by code_simp
  have h4: "appointment_date ?a - 20 = 7 + 1" by (simp add: visit_def)
  have h5: "\<exists>v. Some v \<in> set (fees_return ?a) \<and> 0 < v"
    by (rule exI[of _ 30]) (simp add: fees_return_def visit_def fees_def opt_chain_def)
  have f: "first_nonzero (fees_return ?a) = 30"
    by (simp add: fees_return_def visit_def fees_def opt_chain_def)
  from C4_outside_window_is_paid[OF h1 h2 h3 h4] h1 h2 h3 h4 h5 f show ?thesis by simp
qed

subsection \<open>No visit history\<close>

text \<open>
  A return visit with no other completed visit, recorded cost 0 and consultation fee 50:
  the loop adds 50, where \<open>cost ?? \<dots>\<close> is 0.
\<close>

theorem C5_counterexample:
  "is_return_visit (visit ''a1'' 20 (Some 0) True (fees (Some 50) None (Some 7))) = Some True \<and>
   lastVisit [visit ''a1'' 20 (Some 0) True (fees (Some 50) None (Some 7))]
     (visit ''a1'' 20 (Some 0) True (fees (Some 50) None (Some 7))) = None \<and>
   contribution [visit ''a1'' 20 (Some 0) True (fees (Some 50) None (Some 7))]
     (visit ''a1'' 20 (Some 0) True (fees (Some 50) None (Some 7))) = Inr 50 \<and>
   first_present (fees_return (visit ''a1'' 20 (Some 0) True (fees (Some 50) None (Some 7)))) = 0"
  by code_simp

text \<open>
  C5 (as amended). For every return visit for which the query for another
  completed visit of the same patient and doctor returns no row, the contribution is the first of cost, return
  consultation fee and consultation fee that is present and not zero, else 0. It is
  zero only when none of the three is set to a non-zero value, never because the
  history is empty.
\<close>

theorem C5_no_history_is_paid:
  assumes "is_return_visit apt = Some True"
    and "filter (matches_prior apt) db = []"
  shows "contribution db apt = Inr (first_nonzero (fees_return apt)) \<and>
         (contribution db apt = Inr 0 \<longleftrightarrow> (\<forall>v. Some v \<in> set (fees_return apt) \<longrightarrow> v = 0))"
proof -
  have "lastVisit db apt = None" using assms(2) by (simp add: lastVisit_eq)
  then have "contribution db apt = Inr (first_nonzero (fees_return apt))"
    using assms(1) by (simp add: contribution_return paid_return_first_nonzero)
  then show ?thesis by (simp add: first_nonzero_zero_iff)
qed

theorem C5_witness:
  "is_return_visit (visit ''a1'' 20 None True (fees (Some 50) (Some 30) (Some 7))) = Some True \<and>
   filter (matches_prior (visit ''a1'' 20 None True (fees (Some 50) (Some 30) (Some 7))))
     [visit ''a1'' 20 None True (fees (Some 50) (Some 30) (Some 7))] = [] \<and>
   contribution [visit ''a1'' 20 None True (fees (Some 50) (Some 30) (Some 7))]
     (visit ''a1'' 20 None True (fees (Some 50) (Some 30) (Some 7))) = Inr 30"
proof -
  let ?a = "visit ''a1'' 20 None True (fees (Some 50) (Some 30) (Some 7))"
  have h1: "is_return_visit ?a = Some True" by (simp add: visit_def)
  have h2: "filter (matches_prior ?a) [?a] = []" by (simp add: matches_prior_def)
  have f: "first_nonzero (fees_return ?a) = 30"
    by (simp add: fees_return_def visit_def fees_def opt_chain_def)
  from C5_no_history_is_paid[OF h1 h2] h1 h2 f show ?thesis by simp
qed

subsection \<open>Absent fee data\<close>

text \<open>
  An appointment with no joined doctor row and a recorded cost of 25 contributes 25,
  not 0: the recorded cost stands before the doctor's fees in both cascades.
\<close>

theorem C7_counterexample:
  "doctors (visit ''a1'' 20 (Some 25) False None) = None \<and>
   contribution [visit ''a1'' 20 (Some 25) False None]
     (visit ''a1'' 20 (Some 25) False None) = Inr 25"
  by code_simp

text \<open>
  C7 (as amended). The computation of a contribution never fails, also when the
  appointment has no joined doctor row or when fee fields are absent. The contribution
  is 0 when the free branch is taken; otherwise it is the first value that is not zero
  among those that are present of cost, return consultation fee and consultation fee
  for a return visit, and of cost and consultation fee for any other visit, so that
  each absent value falls through to the next one, and it is 0 when none is left.
  Without a doctor row the contribution is the recorded cost, or 0 when there is none;
  when cost, return consultation fee and consultation fee are all absent it is 0.
\<close>

theorem C7_absent_values_fall_through:
  "contribution db apt =
     (if is_return_visit apt = Some True then
        if free_return db apt then Inr 0
        else Inr (first_nonzero (filter (\<lambda>x. x \<noteq> None) (fees_return apt)))
      else Inr (first_nonzero (filter (\<lambda>x. x \<noteq> None) (fees_regular apt)))) \<and>
   (\<exists>c. contribution db apt = Inr c) \<and>
   (doctors apt = None \<longrightarrow>
      contribution db apt = Inr (case cost apt of None \<Rightarrow> 0 | Some c \<Rightarrow> c)) \<and>
   (cost apt = None \<and> opt_chain (doctors apt) return_consultation_fee = None \<and>
    opt_chain (doctors apt) consultation_fee = None \<longrightarrow> contribution db apt = Inr 0)"
proof (cases "is_return_visit apt = Some True")
  case True
  have c: "contribution db apt =
             (if free_return db apt then Inr 0 else Inr (first_nonzero (fees_return apt)))"
    by (simp add: contribution_free_return[OF True] paid_return_first_nonzero)
  have d: "doctors apt = None \<Longrightarrow> \<not> free_return db apt"
    by (simp add: free_return_def opt_chain_def split: option.splits)
  have p: "doctors apt = None \<Longrightarrow>
           first_nonzero (fees_return apt) = (case cost apt of None \<Rightarrow> 0 | Some c \<Rightarrow> c)"
    by (cases "cost apt") (simp_all add: fees_return_def opt_chain_def)
  have z: "cost apt = None \<and> opt_chain (doctors apt) return_consultation_fee = None \<and>
           opt_chain (doctors apt) consultation_fee = None \<Longrightarrow>
           first_nonzero (fees_return apt) = 0"
    by (simp add: fees_return_def)
  have f: "first_nonzero (filter (\<lambda>x. x \<noteq> None) (fees_return apt)) =
           first_nonzero (fees_return apt)"
    by (rule first_nonzero_filter_present)
  have 0: "contribution db apt =
     (if is_return_visit apt = Some True then
        if free_return db apt then Inr 0
        else Inr (first_nonzero (filter (\<lambda>x. x \<noteq> None) (fees_return apt)))
      else Inr (first_nonzero (filter (\<lambda>x. x \<noteq> None) (fees_regular apt))))"
    unfolding f using c True by simp
  have 1: "\<exists>c. contribution db apt = Inr c" using c by simp
  have 2: "doctors apt = None \<longrightarrow>
             contribution db apt = Inr (case cost apt of None \<Rightarrow> 0 | Some c \<Rightarrow> c)"
    using c d p by simp
  have 3: "cost apt = None \<and> opt_chain (doctors apt) return_consultation_fee = None \<and>
           opt_chain (doctors apt) consultation_fee = None \<longrightarrow> contribution db apt = Inr 0"
    using c z by simp
  from 0 1 2 3 show ?thesis by (intro conjI)
next
  case False
  have c: "contribution db apt = Inr (first_nonzero (fees_regular apt))"
    by (simp add: contribution_regular[OF False] paid_regular_first_nonzero)
  have p: "doctors apt = None \<Longrightarrow>
           first_nonzero (fees_regular apt) = (case cost apt of None \<Rightarrow> 0 | Some c \<Rightarrow> c)"
    by (cases "cost apt") (simp_all add: fees_regular_def opt_chain_def)
  have z: "cost apt = None \<and> opt_chain (doctors apt) consultation_fee = None \<Longrightarrow>
           first_nonzero (fees_regular apt) = 0"
    by (simp add: fees_regular_def)
  have f: "first_nonzero (filter (\<lambda>x. x \<noteq> None) (fees_regular apt)) =
           first_nonzero (fees_regular apt)"
    by (rule first_nonzero_filter_present)
  have 0: "contribution db apt =
     (if is_return_visit apt = Some True then
        if free_return db apt then Inr 0
        else Inr (first_nonzero (filter (\<lambda>x. x \<noteq> None) (fees_return apt)))
      else Inr (first_nonzero (filter (\<lambda>x. x \<noteq> None) (fees_regular apt))))"
    unfolding f using c False by simp
  have 1: "\<exists>c. contribution db apt = Inr c" using c by simp
  have 2: "doctors apt = None \<longrightarrow>
             contribution db apt = Inr (case cost apt of None \<Rightarrow> 0 | Some c \<Rightarrow> c)"
    using c p by simp
  have 3: "cost apt = None \<and> opt_chain (doctors apt) return_consultation_fee = None \<and>
           opt_chain (doctors apt) consultation_fee = None \<longrightarrow> contribution db apt = Inr 0"
    using c z by simp
  from 0 1 2 3 show ?thesis by (intro conjI)
qed

theorem C7_witness:
  "doctors (visit ''a2'' 27 None True None) = None \<and>
   cost (visit ''a2'' 27 None True None) = None \<and>
   opt_chain (doctors (visit ''a2'' 27 None True None)) return_consultation_fee = None \<and>
   opt_chain (doctors (visit ''a2'' 27 None True None)) consultation_fee = None \<and>
   contribution [visit ''a1'' 20 None False None] (visit ''a2'' 27 None True None) = Inr 0 \<and>
   is_return_visit (visit ''a3'' 27 None True (fees (Some 50) (Some 30) None)) = Some True \<and>
   free_return [] (visit ''a3'' 27 None True (fees (Some 50) (Some 30) None)) = False \<and>
   filter (\<lambda>x. x \<noteq> None)
     (fees_return (visit ''a3'' 27 None True (fees (Some 50) (Some 30) None))) =
     [Some 30, Some 50] \<and>
   contribution [] (visit ''a3'' 27 None True (fees (Some 50) (Some 30) None)) = Inr 30"
proof -
  let ?a = "visit ''a2'' 27 None True None"
  let ?b = "visit ''a3'' 27 None True (fees (Some 50) (Some 30) None)"
  have h: "doctors ?a = None" "cost ?a = None"
    "opt_chain (doctors ?a) return_consultation_fee = None"
    "opt_chain (doctors ?a) consultation_fee = None"
    by (simp_all add: visit_def opt_chain_def)
  have a: "contribution [visit ''a1'' 20 None False None] ?a = Inr 0"
    using C7_absent_values_fall_through[of "[visit ''a1'' 20 None False None]" ?a,
        THEN conjunct2, THEN conjunct2, THEN conjunct2] h by blast
  have r: "is_return_visit ?b = Some True" by (simp add: visit_def)
  have n: "free_return [] ?b = False" by code_simp
  have l: "filter (\<lambda>x. x \<noteq> None) (fees_return ?b) = [Some 30, Some 50]"
    by (simp add: fees_return_def visit_def fees_def opt_chain_def)
  have "contribution [] ?b = Inr (first_nonzero (filter (\<lambda>x. x \<noteq> None) (fees_return ?b)))"
    using C7_absent_values_fall_through[of "[]" ?b, THEN conjunct1]
    by (simp only: r n if_True if_False simp_thms)
  then have b: "contribution [] ?b = Inr 30" unfolding l by simp
  from h a r n l b show ?thesis by (intro conjI)
qed

subsection \<open>No grace window\<close>

text \<open>
  A return visit two days after the previous one, no grace window, recorded cost 0 and
  return fee 20: the loop adds 20, where \<open>cost ?? return_consultation_fee ?? \<dots>\<close>
  is 0.
\<close>

theorem C8_counterexample:
  "is_return_visit (visit ''a2'' 22 (Some 0) True (fees (Some 60) (Some 20) None)) = Some True \<and>
   opt_chain (doctors (visit ''a2'' 22 (Some 0) True (fees (Some 60) (Some 20) None)))
     free_return_days = None \<and>
   contribution [visit ''a1'' 20 None False (fees (Some 60) (Some 20) None)]
     (visit ''a2'' 22 (Some 0) True (fees (Some 60) (Some 20) None)) = Inr 20 \<and>
   first_present (fees_return (visit ''a2'' 22 (Some 0) True (fees (Some 60) (Some 20) None))) = 0"
  by code_simp

text \<open>
  C8 (as amended). For every return visit whose doctor's \<open>free_return_days\<close> is 0 or
  unset, whatever the table of appointments holds (a completed visit of the same day
  included), the free branch is not taken: the contribution is the first of cost, return
  consultation fee and consultation fee that is present and not zero, else 0.
\<close>

theorem C8_no_window_is_paid:
  assumes "is_return_visit apt = Some True"
    and "opt_chain (doctors apt) free_return_days = None \<or>
         opt_chain (doctors apt) free_return_days = Some 0"
  shows "contribution db apt = Inr (first_nonzero (fees_return apt))"
  using assms
  by (auto simp: contribution_return paid_return_first_nonzero split: option.splits)

theorem C8_witness:
  "is_return_visit (visit ''a2'' 20 (Some 40) True (fees (Some 50) (Some 30) (Some 0))) = Some True \<and>
   opt_chain (doctors (visit ''a2'' 20 (Some 40) True (fees (Some 50) (Some 30) (Some 0))))
     free_return_days = Some 0 \<and>
   lastVisit [visit ''a1'' 20 (Some 100) False (fees (Some 50) (Some 30) (Some 0))]
     (visit ''a2'' 20 (Some 40) True (fees (Some 50) (Some 30) (Some 0))) = Some 20 \<and>
   contribution [visit ''a1'' 20 (Some 100) False (fees (Some 50) (Some 30) (Some 0))]
     (visit ''a2'' 20 (Some 40) True (fees (Some 50) (Some 30) (Some 0))) = Inr 40"
proof -
  let ?a = "visit ''a2'' 20 (Some 40) True (fees (Some 50) (Some 30) (Some 0))"
  let ?db = "[visit ''a1'' 20 (Some 100) False (fees (Some 50) (Some 30) (Some 0))]"
  have h1: "is_return_visit ?a = Some True" by (simp add: visit_def)
  have h2: "opt_chain (doctors ?a) free_return_days = Some 0"
    by (simp add: visit_def fees_def opt_chain_def)
  have h3: "lastVisit ?db ?a = Some 20" by code_simp
  have f: "first_nonzero (fees_return ?a) = 40"
    by (simp add: fees_return_def visit_def fees_def opt_chain_def)
  from C8_no_window_is_paid[OF h1 disjI2[OF h2], of ?db] h1 h2 h3 f show ?thesis by simp
qed

subsection \<open>The invariant of the specification\<close>

text \<open>
  Two inputs where the invariant fails as written. A return visit with recorded cost
  40 and another completed visit of the same patient and doctor on the same day
  contributes 0, and no strictly earlier visit exists. A return visit with no history,
  recorded cost 0 and return fee 30 contributes 30, where
  \<open>cost ?? return_consultation_fee ?? \<dots>\<close> is 0.
\<close>

theorem C1_counterexample:
  "is_return_visit (visit ''a2'' 20 (Some 40) True (fees (Some 50) (Some 30) (Some 7))) = Some True \<and>
   contribution [visit ''a1'' 20 (Some 100) False (fees (Some 50) (Some 30) (Some 7)),
                 visit ''a2'' 20 (Some 40) True (fees (Some 50) (Some 30) (Some 7))]
      (visit ''a2'' 20 (Some 40) True (fees (Some 50) (Some 30) (Some 7))) = Inr 0 \<and>
   \<not> earlier_completed_within
        [visit ''a1'' 20 (Some 100) False (fees (Some 50) (Some 30) (Some 7)),
         visit ''a2'' 20 (Some 40) True (fees (Some 50) (Some 30) (Some 7))]
        (visit ''a2'' 20 (Some 40) True (fees (Some 50) (Some 30) (Some 7))) \<and>
   is_return_visit (visit ''b1'' 20 (Some 0) True (fees (Some 50) (Some 30) (Some 7))) = Some True \<and>
   \<not> earlier_completed_within
        [visit ''b1'' 20 (Some 0) True (fees (Some 50) (Some 30) (Some 7))]
        (visit ''b1'' 20 (Some 0) True (fees (Some 50) (Some 30) (Some 7))) \<and>
   first_present (fees_return (visit ''b1'' 20 (Some 0) True (fees (Some 50) (Some 30) (Some 7)))) = 0 \<and>
   contribution [visit ''b1'' 20 (Some 0) True (fees (Some 50) (Some 30) (Some 7))]
      (visit ''b1'' 20 (Some 0) True (fees (Some 50) (Some 30) (Some 7))) = Inr 30"
  by code_simp

text \<open>
  C1 (as amended). For every return visit: if a strictly earlier completed visit of the
  same patient and doctor lies within \<open>free_return_days\<close> days, the contribution is 0.
  The contribution is 0 exactly when the free branch is taken (the most recent other
  completed visit, which may be of the same or a later day, is at most
  \<open>free_return_days\<close> days before the appointment, and \<open>free_return_days\<close> is set
  and not zero) or no fee of the cascade is set to a non-zero value. When the free
  branch is not taken the contribution is the first of cost, return consultation fee and
  consultation fee that is present and not zero, else 0.
\<close>

theorem C1_return_visit_contribution:
  assumes "is_return_visit apt = Some True"
  shows "(earlier_completed_within db apt \<longrightarrow> contribution db apt = Inr 0) \<and>
         (contribution db apt = Inr 0 \<longleftrightarrow>
            free_return db apt \<or> first_nonzero (fees_return apt) = 0) \<and>
         (\<not> free_return db apt \<longrightarrow>
            contribution db apt = Inr (first_nonzero (fees_return apt)))"
  using assms earlier_imp_free_return[of db apt]
  by (auto simp: contribution_free_return paid_return_first_nonzero)

theorem C1_witness:
  "is_return_visit (visit ''a2'' 27 None True (fees (Some 50) (Some 30) (Some 7))) = Some True \<and>
   earlier_completed_within
     [visit ''a1'' 20 (Some 100) False (fees (Some 50) (Some 30) (Some 7))]
     (visit ''a2'' 27 None True (fees (Some 50) (Some 30) (Some 7))) \<and>
   contribution [visit ''a1'' 20 (Some 100) False (fees (Some 50) (Some 30) (Some 7))]
     (visit ''a2'' 27 None True (fees (Some 50) (Some 30) (Some 7))) = Inr 0"
proof -
  let ?a = "visit ''a2'' 27 None True (fees (Some 50) (Some 30) (Some 7))"
  let ?db = "[visit ''a1'' 20 (Some 100) False (fees (Some 50) (Some 30) (Some 7))]"
  have r: "is_return_visit ?a = Some True" by (simp add: visit_def)
  have e: "earlier_completed_within ?db ?a" by code_simp
  from C1_return_visit_contribution[OF r, of ?db] e r show ?thesis by blast
qed

section \<open>Search input sanitising\<close>

text \<open>
  C9. For every input, \<open>sanitizeSearchInput\<close> returns the input string with each
  backslash, percent sign and underscore preceded by one backslash and every other
  character unchanged (the three passes together act as one pass over the input's
  characters, so an inserted backslash is never escaped again); it returns the empty
  string for the empty string and for an input that is not a string.
\<close>

theorem C9_sanitize:
  "sanitizeSearchInput input =
     (case input of JsString s \<Rightarrow> concat (map escape_char s) | _ \<Rightarrow> [])"
  by (cases input) (simp_all add: sanitizeSearchInput_def three_passes)

section \<open>The daily total\<close>

text \<open>\<open>js_exponent\<close> is the binary exponent of its argument.\<close>

lemma two_power_le_of_int: "(2::int) ^ n \<le> m \<Longrightarrow> (2::rat) ^ n \<le> of_int m"
  by (metis of_int_le_iff of_int_numeral of_int_power)

lemma of_int_le_two_power: "m \<le> (2::int) ^ n \<Longrightarrow> of_int m \<le> (2::rat) ^ n"
  by (metis of_int_le_iff of_int_numeral of_int_power)

lemma js_exponent_ge1:
  fixes x :: rat
  assumes "1 \<le> \<bar>x\<bar>"
  shows "pow2 (js_exponent x) \<le> \<bar>x\<bar> \<and> \<bar>x\<bar> < pow2 (js_exponent x + 1)"
proof -
  define m where "m = \<lfloor>\<bar>x\<bar>\<rfloor>"
  have m1: "1 \<le> m" using assms by (simp add: m_def le_floor_iff)
  then have m0: "0 < m" by simp
  have b: "2 ^ nat (bitlen m - 1) \<le> m" "m < 2 ^ nat (bitlen m)"
    using bitlen_bounds[OF m0] by simp_all
  have bl: "1 \<le> bitlen m" using m0 by (simp add: bitlen_alt_def)
  have e: "js_exponent x = bitlen m - 1" using assms by (simp add: js_exponent_def m_def)
  have lo: "(of_int m :: rat) \<le> \<bar>x\<bar>" by (simp add: m_def)
  have hi: "\<bar>x\<bar> < of_int (m + 1)" unfolding m_def by linarith
  have 1: "(2 ^ nat (bitlen m - 1) :: rat) \<le> \<bar>x\<bar>"
    using two_power_le_of_int[OF b(1)] lo by (rule order_trans)
  have "m + 1 \<le> 2 ^ nat (bitlen m)" using b(2) by simp
  then have "(of_int (m + 1) :: rat) \<le> 2 ^ nat (bitlen m)" by (rule of_int_le_two_power)
  with hi have 2: "\<bar>x\<bar> < (2 ^ nat (bitlen m) :: rat)" by (rule less_le_trans)
  show ?thesis using 1 2 bl by (simp add: e pow2_def)
qed

lemma js_exponent_lt1:
  fixes x :: rat
  assumes "x \<noteq> 0" "\<bar>x\<bar> < 1"
  shows "pow2 (js_exponent x) \<le> \<bar>x\<bar> \<and> \<bar>x\<bar> < pow2 (js_exponent x + 1)"
proof -
  define y where "y = 1 / \<bar>x\<bar>"
  define c where "c = \<lceil>y\<rceil>"
  have xp: "0 < \<bar>x\<bar>" using assms(1) by simp
  have y1: "1 < y" using assms xp by (simp add: y_def)
  have c2: "2 \<le> c" using y1 unfolding c_def by linarith
  then have c0: "0 < c - 1" by simp
  define k where "k = bitlen (c - 1)"
  have b: "2 ^ nat (k - 1) \<le> c - 1" "c - 1 < 2 ^ nat k"
    using bitlen_bounds[OF c0] by (simp_all add: k_def)
  have k1: "1 \<le> k" using c0 by (simp add: k_def bitlen_alt_def)
  have e: "js_exponent x = - k" using assms by (simp add: js_exponent_def k_def c_def y_def)
  have yc: "y \<le> of_int c" "of_int (c - 1) < y" unfolding c_def by linarith+
  have "c \<le> 2 ^ nat k" using b(2) by simp
  then have "(of_int c :: rat) \<le> 2 ^ nat k" by (rule of_int_le_two_power)
  with yc(1) have up: "y \<le> 2 ^ nat k" by (rule order_trans)
  have "(2 ^ nat (k - 1) :: rat) \<le> of_int (c - 1)" using b(1) by (rule two_power_le_of_int)
  then have lo: "2 ^ nat (k - 1) < y" using yc(2) by (rule le_less_trans)
  have x_eq: "\<bar>x\<bar> = 1 / y" using xp by (simp add: y_def)
  have yp: "0 < y" using y1 by simp
  have 1: "1 / 2 ^ nat k \<le> \<bar>x\<bar>" unfolding x_eq using up yp
    by (simp add: frac_le)
  have 2: "\<bar>x\<bar> < 1 / 2 ^ nat (k - 1)" unfolding x_eq using lo
    by (simp add: frac_less2)
  have p1: "pow2 (- k) = 1 / 2 ^ nat k" using k1 by (simp add: pow2_def)
  have p2: "pow2 (- k + 1) = 1 / 2 ^ nat (k - 1)"
  proof (cases "k = 1")
    case True then show ?thesis by (simp add: pow2_def)
  next
    case False
    then have "- k + 1 < 0" using k1 by simp
    moreover have "nat (- (- k + 1)) = nat (k - 1)" by simp
    ultimately show ?thesis by (simp add: pow2_def)
  qed
  show ?thesis using 1 2 by (simp only: e p1 p2)
qed

lemma js_exponent_bounds:
  "x \<noteq> 0 \<Longrightarrow> pow2 (js_exponent x) \<le> \<bar>x\<bar> \<and> \<bar>x\<bar> < pow2 (js_exponent x + 1)"
  using js_exponent_ge1[of x] js_exponent_lt1[of x] by (cases "1 \<le> \<bar>x\<bar>") auto

text \<open>Whole numbers below \<open>2 ^ 53\<close> are doubles, and their sums are exact.\<close>

lemma round_half_even_of_int: "round_half_even (of_int m) = m"
  by (simp add: round_half_even_def Let_def)

lemma pow2_nonpos: "e \<le> 0 \<Longrightarrow> pow2 e = 1 / 2 ^ nat (- e)"
  by (cases "e = 0") (simp_all add: pow2_def)

lemma js_exponent_of_int:
  assumes "n \<noteq> 0" "\<bar>n\<bar> < 2 ^ 53"
  shows "js_exponent (of_int n) \<le> 52"
proof -
  have r: "\<bar>of_int n :: rat\<bar> = of_int \<bar>n\<bar>" by simp
  have "1 \<le> \<bar>n\<bar>" using assms(1) by simp
  then have a: "(1::rat) \<le> \<bar>of_int n\<bar>" unfolding r by (simp only: of_int_1_le_iff)
  have f: "\<lfloor>\<bar>of_int n :: rat\<bar>\<rfloor> = \<bar>n\<bar>" unfolding r by (rule floor_of_int)
  have "bitlen \<bar>n\<bar> \<le> 53" using assms(2) by (simp add: bitlen_le_iff_power)
  then show ?thesis using a f by (simp add: js_exponent_def)
qed

lemma round_double_of_int:
  assumes "\<bar>n\<bar> < 2 ^ 53"
  shows "round_double (of_int n) = of_int n"
proof (cases "n = 0")
  case True then show ?thesis by (simp add: round_double_def)
next
  case False
  define e where "e = max (js_exponent (of_int n) - 52) (- 1074)"
  have e: "e \<le> 0" using js_exponent_of_int[OF False assms] by (simp add: e_def)
  define k where "k = nat (- e)"
  have p: "pow2 e = 1 / 2 ^ k" using e by (simp add: pow2_nonpos k_def)
  have "of_int n / pow2 e = (of_int (n * 2 ^ k) :: rat)" by (simp add: p)
  then have "round_half_even (of_int n / pow2 e) = n * 2 ^ k"
    by (simp only: round_half_even_of_int)
  then have "of_int (round_half_even (of_int n / pow2 e)) * pow2 e = (of_int n :: rat)"
    by (simp add: p)
  then show ?thesis using False by (simp add: round_double_def Let_def e_def)
qed

lemma to_double_of_int:
  assumes "\<bar>n\<bar> < 2 ^ 53"
  shows "to_double (of_int n) = Finite (of_int n)"
proof -
  have "(2::int) ^ 53 \<le> 2 ^ 1024" by (rule power_increasing) simp_all
  then have b: "n < 2 ^ 1024" "- (2 ^ 1024) < n" using assms by linarith+
  have p: "pow2 1024 = of_int (2 ^ 1024)" by (simp add: pow2_def)
  have 1: "\<not> pow2 1024 \<le> (of_int n :: rat)"
    unfolding p using b(1) by (simp only: of_int_le_iff not_le)
  have "- pow2 1024 = (of_int (- (2 ^ 1024)) :: rat)" unfolding p by simp
  then have 2: "\<not> (of_int n :: rat) \<le> - pow2 1024"
    using b(2) by (simp only: of_int_le_iff not_le)
  show ?thesis using 1 2 by (simp add: to_double_def round_double_of_int[OF assms] Let_def)
qed

lemma contribution_amount: "contribution db apt = Inr (amount db apt)"
proof (cases "is_return_visit apt = Some True")
  case True
  then show ?thesis by (simp add: amount_def contribution_free_return)
next
  case False
  then show ?thesis by (simp add: amount_def contribution_regular)
qed

lemma revenue_loop_whole:
  assumes "list_all (\<lambda>a. whole (amount db a)) xs"
    and "\<bar>t\<bar> + sum_list (map (\<lambda>a. \<bar>\<lfloor>amount db a\<rfloor>\<bar>) xs) < 2 ^ 53"
  shows "revenue_loop db xs (Finite (of_int t)) =
           Inr (Finite (of_int (t + sum_list (map (\<lambda>a. \<lfloor>amount db a\<rfloor>) xs))))"
  using assms
proof (induction xs arbitrary: t)
  case Nil
  then show ?case by simp
next
  case (Cons a xs)
  define m where "m = \<lfloor>amount db a\<rfloor>"
  have "whole (amount db a)" using Cons.prems(1) by simp
  then have "of_int \<lfloor>amount db a\<rfloor> = amount db a" unfolding whole_def .
  then have am: "amount db a = of_int m" unfolding m_def by (rule sym)
  have nonneg: "0 \<le> sum_list (map (\<lambda>a. \<bar>\<lfloor>amount db a\<rfloor>\<bar>) xs)"
    by (rule sum_list_nonneg) auto
  have bound: "\<bar>t\<bar> + \<bar>m\<bar> + sum_list (map (\<lambda>a. \<bar>\<lfloor>amount db a\<rfloor>\<bar>) xs) < 2 ^ 53"
    using Cons.prems(2) by (simp add: m_def)
  then have small: "\<bar>t + m\<bar> < 2 ^ 53" using nonneg by linarith
  have step: "js_add (Finite (of_int t)) (amount db a) = Finite (of_int (t + m))"
    unfolding am js_add.simps of_int_add[symmetric] by (rule to_double_of_int[OF small])
  have rest: "\<bar>t + m\<bar> + sum_list (map (\<lambda>a. \<bar>\<lfloor>amount db a\<rfloor>\<bar>) xs) < 2 ^ 53"
    using bound by linarith
  have all: "list_all (\<lambda>a. whole (amount db a)) xs" using Cons.prems(1) by simp
  have "revenue_loop db (a # xs) (Finite (of_int t)) =
        revenue_loop db xs (Finite (of_int (t + m)))"
    by (simp only: revenue_loop.simps contribution_amount sum.case step)
  also have "\<dots> = Inr (Finite (of_int (t + m + sum_list (map (\<lambda>a. \<lfloor>amount db a\<rfloor>) xs))))"
    by (rule Cons.IH[OF all rest])
  finally show ?case by (simp add: m_def add.assoc)
qed

lemma whole_abs: "whole r \<Longrightarrow> \<bar>r\<bar> = of_int \<bar>\<lfloor>r\<rfloor>\<bar>"
  by (metis whole_def of_int_abs)

lemma sum_abs_whole:
  "list_all (\<lambda>a. whole (amount db a)) xs \<Longrightarrow>
   sum_list (map (\<lambda>a. \<bar>amount db a\<bar>) xs) =
     of_int (sum_list (map (\<lambda>a. \<bar>\<lfloor>amount db a\<rfloor>\<bar>) xs))"
  by (induction xs) (simp_all add: whole_abs)

lemma totalRevenue_whole:
  assumes "list_all (\<lambda>a. whole (amount db a)) xs"
    and "sum_list (map (\<lambda>a. \<bar>amount db a\<bar>) xs) < 2 ^ 53"
  shows "totalRevenue db xs =
           Inr (Finite (of_int (sum_list (map (\<lambda>a. \<lfloor>amount db a\<rfloor>) xs))))"
proof -
  have "(of_int (sum_list (map (\<lambda>a. \<bar>\<lfloor>amount db a\<rfloor>\<bar>) xs)) :: rat) < of_int (2 ^ 53)"
    using assms(2) by (simp add: sum_abs_whole[OF assms(1)])
  then have "sum_list (map (\<lambda>a. \<bar>\<lfloor>amount db a\<rfloor>\<bar>) xs) < 2 ^ 53"
    by (simp only: of_int_less_iff)
  then have "\<bar>0\<bar> + sum_list (map (\<lambda>a. \<bar>\<lfloor>amount db a\<rfloor>\<bar>) xs) < 2 ^ 53" by simp
  from revenue_loop_whole[OF assms(1) this] show ?thesis
    by (simp add: totalRevenue_def)
qed

lemma sum_list_mset_cong:
  fixes f :: "'a \<Rightarrow> 'b::comm_monoid_add"
  assumes "mset ys = mset xs"
  shows "sum_list (map f ys) = sum_list (map f xs)"
proof -
  have "sum_mset (image_mset f (mset ys)) = sum_mset (image_mset f (mset xs))"
    using assms by simp
  then show ?thesis by (simp only: sum_mset_sum_list flip: mset_map)
qed

lemma sum_whole:
  "list_all (\<lambda>a. whole (amount db a)) xs \<Longrightarrow>
   of_int (sum_list (map (\<lambda>a. \<lfloor>amount db a\<rfloor>) xs)) = sum_list (map (amount db) xs)"
proof (induction xs)
  case Nil
  then show ?case by simp
next
  case (Cons a xs)
  have "whole (amount db a)" using Cons.prems by simp
  then have "of_int \<lfloor>amount db a\<rfloor> = amount db a" unfolding whole_def .
  then show ?case using Cons by (simp del: of_int_floor_cancel)
qed

text \<open>The additions of the two orders of the costs 0.10, 0.20 and 0.30.\<close>

lemma to_double_finite:
  assumes "round_double x = r" and "\<bar>r\<bar> < 2 ^ 1024"
  shows "to_double x = Finite r"
proof -
  have p: "pow2 1024 = 2 ^ 1024" by (simp add: pow2_def)
  from assms(2) have "\<not> 2 ^ 1024 \<le> r" "\<not> r \<le> - (2 ^ 1024)" by linarith+
  then show ?thesis by (simp add: to_double_def Let_def assms(1) p)
qed

lemma tenths_are_doubles:
  "round_double (1 / 10) = 3602879701896397 / 36028797018963968"
  "round_double (2 / 10) = 3602879701896397 / 18014398509481984"
  "round_double (3 / 10) = 5404319552844595 / 18014398509481984"
  by code_simp+

lemma tenths_contributions:
  "contribution tenths (visit ''t1'' 20 (Some (3602879701896397 / 36028797018963968)) False
     (fees (Some 50) (Some 30) (Some 7)))
     = Inr (3602879701896397 / 36028797018963968)"
  "contribution tenths (visit ''t2'' 20 (Some (3602879701896397 / 18014398509481984)) False
     (fees (Some 50) (Some 30) (Some 7)))
     = Inr (3602879701896397 / 18014398509481984)"
  "contribution tenths (visit ''t3'' 20 (Some (5404319552844595 / 18014398509481984)) False
     (fees (Some 50) (Some 30) (Some 7)))
     = Inr (5404319552844595 / 18014398509481984)"
  by (simp_all add: contribution_def visit_def fees_def paid_regular_def js_or_def
        js_or_zero_def truthy_def opt_chain_def)

lemma tenths_forward_rounding:
  "round_double (0 + 3602879701896397 / 36028797018963968)
     = 3602879701896397 / 36028797018963968"
  "round_double (3602879701896397 / 36028797018963968 + 3602879701896397 / 18014398509481984)
     = 1351079888211149 / 4503599627370496"
  "round_double (1351079888211149 / 4503599627370496 + 5404319552844595 / 18014398509481984)
     = 1351079888211149 / 2251799813685248"
  by code_simp+

lemma tenths_backward_rounding:
  "round_double (0 + 5404319552844595 / 18014398509481984)
     = 5404319552844595 / 18014398509481984"
  "round_double (5404319552844595 / 18014398509481984 + 3602879701896397 / 18014398509481984)
     = 1 / 2"
  "round_double (1 / 2 + 3602879701896397 / 36028797018963968)
     = 5404319552844595 / 9007199254740992"
  by code_simp+

lemma tenths_forward:
  "js_add (Finite 0) (3602879701896397 / 36028797018963968)
     = Finite (3602879701896397 / 36028797018963968)"
  "js_add (Finite (3602879701896397 / 36028797018963968)) (3602879701896397 / 18014398509481984)
     = Finite (1351079888211149 / 4503599627370496)"
  "js_add (Finite (1351079888211149 / 4503599627370496)) (5404319552844595 / 18014398509481984)
     = Finite (1351079888211149 / 2251799813685248)"
  unfolding js_add.simps
  by (rule to_double_finite[OF tenths_forward_rounding(1)], simp,
      rule to_double_finite[OF tenths_forward_rounding(2)], simp,
      rule to_double_finite[OF tenths_forward_rounding(3)], simp)

lemma tenths_backward:
  "js_add (Finite 0) (5404319552844595 / 18014398509481984)
     = Finite (5404319552844595 / 18014398509481984)"
  "js_add (Finite (5404319552844595 / 18014398509481984)) (3602879701896397 / 18014398509481984)
     = Finite (1 / 2)"
  "js_add (Finite (1 / 2)) (3602879701896397 / 36028797018963968)
     = Finite (5404319552844595 / 9007199254740992)"
  unfolding js_add.simps
  by (rule to_double_finite[OF tenths_backward_rounding(1)], simp,
      rule to_double_finite[OF tenths_backward_rounding(2)], simp,
      rule to_double_finite[OF tenths_backward_rounding(3)], simp)

text \<open>
  The running total is a double, and double addition is not associative: the costs
  0.10, 0.20 and 0.30 add up to 0.6000000000000001 in this order and to 0.6 in the
  reverse order.
\<close>

theorem C6_counterexample:
  "mset (rev tenths) = mset tenths \<and>
   totalRevenue tenths tenths = Inr (Finite (1351079888211149 / 2251799813685248)) \<and>
   totalRevenue tenths (rev tenths) = Inr (Finite (5404319552844595 / 9007199254740992))"
proof -
  have 1: "mset (rev tenths) = mset tenths" by simp
  have 2: "totalRevenue tenths tenths = Inr (Finite (1351079888211149 / 2251799813685248))"
    unfolding totalRevenue_def
    by (subst tenths_def)
       (simp only: revenue_loop.simps tenths_contributions sum.case tenths_forward)
  have 3: "totalRevenue tenths (rev tenths) = Inr (Finite (5404319552844595 / 9007199254740992))"
    unfolding totalRevenue_def
    by (subst tenths_def)
       (simp only: rev.simps append.simps revenue_loop.simps tenths_contributions sum.case
          tenths_backward)
  from 1 2 3 show ?thesis by (intro conjI)
qed

text \<open>
  C6 (as amended). For every list of completed appointments, with the doctors' fee data
  and the table of appointments fixed, whose contributions are whole numbers with
  absolute values adding up to less than \<open>2 ^ 53\<close>, every reordering of the list
  yields the same total, and the total is the exact sum of the contributions.
\<close>

theorem C6_total_order_independent:
  assumes "mset ys = mset xs"
    and "list_all (\<lambda>a. whole (amount db a)) xs"
    and "sum_list (map (\<lambda>a. \<bar>amount db a\<bar>) xs) < 2 ^ 53"
  shows "totalRevenue db ys = totalRevenue db xs \<and>
         totalRevenue db xs = Inr (Finite (sum_list (map (amount db) xs)))"
proof -
  have s: "set ys = set xs" using assms(1) by (rule mset_eq_setD)
  have w: "list_all (\<lambda>a. whole (amount db a)) ys"
    using assms(2) s by (simp add: list_all_iff)
  have b: "sum_list (map (\<lambda>a. \<bar>amount db a\<bar>) ys) < 2 ^ 53"
    using assms(3) sum_list_mset_cong[OF assms(1), of "\<lambda>a. \<bar>amount db a\<bar>"] by simp
  have "sum_list (map (\<lambda>a. \<lfloor>amount db a\<rfloor>) ys) = sum_list (map (\<lambda>a. \<lfloor>amount db a\<rfloor>) xs)"
    by (rule sum_list_mset_cong[OF assms(1)])
  then have 1: "totalRevenue db ys = totalRevenue db xs"
    by (simp add: totalRevenue_whole[OF w b] totalRevenue_whole[OF assms(2,3)])
  have 2: "totalRevenue db xs = Inr (Finite (sum_list (map (amount db) xs)))"
    by (simp only: totalRevenue_whole[OF assms(2,3)] sum_whole[OF assms(2)])
  from 1 2 show ?thesis by simp
qed

theorem C6_witness:
  "mset [patient_visit ''pC'' ''c1'' 20 (Some 100) False (fees (Some 50) (Some 30) (Some 7)),
         patient_visit ''pA'' ''a2'' 20 None True (fees (Some 50) (Some 30) (Some 7)),
         patient_visit ''pB'' ''b2'' 20 (Some 40) True (fees (Some 50) (Some 30) (Some 7))] =
   mset (filter (\<lambda>a. status a = Completed) (filter (\<lambda>a. appointment_date a = 20) example_db)) \<and>
   list_all (\<lambda>a. whole (amount example_db a))
     (filter (\<lambda>a. status a = Completed) (filter (\<lambda>a. appointment_date a = 20) example_db)) \<and>
   sum_list (map (\<lambda>a. \<bar>amount example_db a\<bar>)
     (filter (\<lambda>a. status a = Completed) (filter (\<lambda>a. appointment_date a = 20) example_db)))
     < 2 ^ 53 \<and>
   totalRevenue example_db
     [patient_visit ''pC'' ''c1'' 20 (Some 100) False (fees (Some 50) (Some 30) (Some 7)),
      patient_visit ''pA'' ''a2'' 20 None True (fees (Some 50) (Some 30) (Some 7)),
      patient_visit ''pB'' ''b2'' 20 (Some 40) True (fees (Some 50) (Some 30) (Some 7))] =
     Inr (Finite 140) \<and>
   fetchTodayStats_revenue example_db 20 = Inr (Finite 140)"
proof -
  let ?xs = "filter (\<lambda>a. status a = Completed) (filter (\<lambda>a. appointment_date a = 20) example_db)"
  let ?ys = "[patient_visit ''pC'' ''c1'' 20 (Some 100) False (fees (Some 50) (Some 30) (Some 7)),
      patient_visit ''pA'' ''a2'' 20 None True (fees (Some 50) (Some 30) (Some 7)),
      patient_visit ''pB'' ''b2'' 20 (Some 40) True (fees (Some 50) (Some 30) (Some 7))]"
  have xs: "?xs = [patient_visit ''pA'' ''a2'' 20 None True (fees (Some 50) (Some 30) (Some 7)),
      patient_visit ''pB'' ''b2'' 20 (Some 40) True (fees (Some 50) (Some 30) (Some 7)),
      patient_visit ''pC'' ''c1'' 20 (Some 100) False (fees (Some 50) (Some 30) (Some 7))]"
    by (simp add: example_db_def patient_visit_def visit_def)
  have h1: "mset ?ys = mset ?xs" unfolding xs by simp
  have h2: "list_all (\<lambda>a. whole (amount example_db a)) ?xs" by code_simp
  have h3: "sum_list (map (\<lambda>a. \<bar>amount example_db a\<bar>) ?xs) < 2 ^ 53" by code_simp
  have v: "sum_list (map (amount example_db) ?xs) = 140" by code_simp
  have f: "fetchTodayStats_revenue example_db 20 = totalRevenue example_db ?xs"
    by (simp add: fetchTodayStats_revenue_def)
  from C6_total_order_independent[OF h1 h2 h3] h1 h2 h3 v f show ?thesis by simp
qed

end
